theory Spec2Isabelle
  imports Main "HOL-Library.AList"
begin

section \<open>The connection parser of wireviz.py\<close>

text \<open>
  The development follows \<^verbatim>\<open>parse\<close> in \<^verbatim>\<open>src/wireviz/wireviz.py\<close>: the sections
  \<^verbatim>\<open>connectors\<close>, \<^verbatim>\<open>cables\<close> and \<^verbatim>\<open>connections\<close> of the deserialized YAML document,
  the checks made on every connection row, the connection list built from a row, and the
  calls of \<^verbatim>\<open>harness.connect\<close> made from that list. Every \<^verbatim>\<open>raise\<close> and every failing
  subscript of the source is a value of type \<open>error\<close>.
\<close>

subsection \<open>Data\<close>

text \<open>A pin label is a YAML integer or string; the scalar and list forms use the integer 1.\<close>

datatype pin = PInt int | PStr string

text \<open>The value of a one-key mapping: a single label or range expression, or a list of them.\<close>

datatype pinspec = PinScalar pin | PinList "pin list"

text \<open>
  One entry of a connection row: \<^verbatim>\<open>str\<close>, \<^verbatim>\<open>list\<close> or \<^verbatim>\<open>dict\<close>. A dict keeps its keys
  in insertion order, so it is an association list.
\<close>

datatype item = ItemStr string | ItemList "string list" | ItemDict "(string \<times> pinspec) list"

datatype section_key = Connectors | Cables

datatype error =
    FirstItemNotFound                       \<comment> \<open>\<^verbatim>\<open>First item not found anywhere.\<close>\<close>
  | RoleAlternationViolation string section_key \<comment> \<open>\<^verbatim>\<open>{subitem} is not in {expected_section}\<close>\<close>
  | MultiKeyMapping                         \<comment> \<open>\<^verbatim>\<open>Dicts may contain only one key here!\<close>\<close>
  | CardinalityMismatch                     \<comment> \<open>\<^verbatim>\<open>All lists and dict lists must be the same length!\<close>\<close>
  | NoCardinalityRevealed                   \<comment> \<open>\<^verbatim>\<open>No item revealed the number of connections to make!\<close>\<close>
  | IndexError                              \<comment> \<open>a list subscript out of range\<close>
  | KeyError string                         \<comment> \<open>a dict subscript with a missing key\<close>
  | MalformedPinSpec                        \<comment> \<open>raised by \<^verbatim>\<open>expand\<close>\<close>
  | DuplicateId string                      \<comment> \<open>raised by the registry\<close>

text \<open>
  The attributes of a component. The parser reads only \<^verbatim>\<open>autogenerate\<close> (by its truth
  value); everything else is handed to the harness unread.
\<close>

record attribs =
  autogenerate :: bool
  static :: "(string \<times> string) list"

text \<open>
  The deserialized document as \<^verbatim>\<open>yaml.safe_load\<close> returns it. A section is \<open>None\<close> when
  its key is absent or its value has the wrong type.
\<close>

record document =
  doc_connectors :: "(string \<times> attribs) list option"
  doc_cables :: "(string \<times> attribs) list option"
  doc_connections :: "item list list option"

text \<open>\<^verbatim>\<open>yaml_data\<close> once every section exists (after the loop over the sections).\<close>

record yaml_data =
  connectors :: "(string \<times> attribs) list"
  cables :: "(string \<times> attribs) list"
  connections :: "item list list"

text \<open>The arguments of one call of \<^verbatim>\<open>harness.connect\<close>.\<close>

record wirelink =
  from_name :: "string option"
  from_pin :: "pin option"
  via_name :: string
  via_pin :: pin
  to_name :: "string option"
  to_pin :: "pin option"

text \<open>
  Modelled from the spec: the class \<^verbatim>\<open>Harness\<close> (module \<^verbatim>\<open>wireviz.Harness\<close>) is not
  among the sources. It is the component registry of the specification, one table per
  role, together with the wire links it has been handed, in the order of the calls.
\<close>

record harness =
  h_connectors :: "(string \<times> attribs) list"
  h_cables :: "(string \<times> attribs) list"
  h_links :: "wirelink list"

definition empty_harness :: harness where
  "empty_harness = \<lparr>h_connectors = [], h_cables = [], h_links = []\<rparr>"

text \<open>
  Modelled from the spec: \<^verbatim>\<open>Harness.add_connector\<close> is not among the sources. It is
  the registry's \<^verbatim>\<open>register(id, definition)\<close>: it adds a new component and fails with
  \<^verbatim>\<open>DuplicateId\<close> if the id is already present (ids are unique within their role).
\<close>

definition add_connector :: "harness \<Rightarrow> string \<Rightarrow> attribs \<Rightarrow> error + harness" where
  "add_connector h name a =
     (if name \<in> set (map fst (h_connectors h)) then Inl (DuplicateId name)
      else Inr (h\<lparr>h_connectors := h_connectors h @ [(name, a)]\<rparr>))"

text \<open>
  Modelled from the spec: \<^verbatim>\<open>Harness.add_cable\<close> is not among the sources; the same
  \<^verbatim>\<open>register\<close> for the cable role.
\<close>

definition add_cable :: "harness \<Rightarrow> string \<Rightarrow> attribs \<Rightarrow> error + harness" where
  "add_cable h name a =
     (if name \<in> set (map fst (h_cables h)) then Inl (DuplicateId name)
      else Inr (h\<lparr>h_cables := h_cables h @ [(name, a)]\<rparr>))"

text \<open>
  Modelled from the spec: \<^verbatim>\<open>Harness.connect\<close> is not among the sources. It is the
  collaborator that receives every emitted wire link; it records the link.
\<close>

definition connect :: "harness \<Rightarrow> wirelink \<Rightarrow> harness" where
  "connect h l = h\<lparr>h_links := h_links h @ [l]\<rparr>"

text \<open>\<^verbatim>\<open>id in harness.cables\<close>\<close>

definition in_cables :: "harness \<Rightarrow> string \<Rightarrow> bool" where
  "in_cables h name = (name \<in> set (map fst (h_cables h)))"

text \<open>
  The state that the rows of one document share: the harness and the dictionary
  \<^verbatim>\<open>autogenerated_ids\<close>, created once before the loop over the rows.
\<close>

record state =
  harness :: harness
  autogenerated_ids :: "(string \<times> nat) list"

text \<open>
  \<^verbatim>\<open>expand\<close> (module \<^verbatim>\<open>wireviz.wv_helper\<close>) is not among the sources and its grammar is
  left open by the specification, so every function that calls it takes it as a
  parameter: from a pin specification to the sequence of pin labels, or an error.
\<close>

type_synonym expander = "pinspec \<Rightarrow> error + pin list"

subsection \<open>Adding the declared components\<close>

text \<open>
  The loop over \<^verbatim>\<open>sections\<close>, for one dictionary section: every cable is registered,
  and every connector whose \<^verbatim>\<open>autogenerate\<close> is not set.
\<close>

fun add_connectors :: "harness \<Rightarrow> (string \<times> attribs) list \<Rightarrow> error + harness" where
  "add_connectors h [] = Inr h"
| "add_connectors h ((key, a) # rest) =
     (if \<not> autogenerate a then
        (case add_connector h key a of
           Inl e \<Rightarrow> Inl e
         | Inr h' \<Rightarrow> add_connectors h' rest)
      else add_connectors h rest)"

fun add_cables :: "harness \<Rightarrow> (string \<times> attribs) list \<Rightarrow> error + harness" where
  "add_cables h [] = Inr h"
| "add_cables h ((key, a) # rest) =
     (case add_cable h key a of
        Inl e \<Rightarrow> Inl e
      | Inr h' \<Rightarrow> add_cables h' rest)"

text \<open>A missing section is created empty.\<close>

definition section_or_empty :: "'a list option \<Rightarrow> 'a list" where
  "section_or_empty s = (case s of None \<Rightarrow> [] | Some xs \<Rightarrow> xs)"

definition with_sections :: "document \<Rightarrow> yaml_data" where
  "with_sections d =
     \<lparr>connectors = section_or_empty (doc_connectors d),
      cables = section_or_empty (doc_cables d),
      connections = section_or_empty (doc_connections d)\<rparr>"

definition add_items :: "document \<Rightarrow> error + (harness \<times> yaml_data)" where
  "add_items d =
     (let yd = with_sections d
      in case add_connectors empty_harness (connectors yd) of
           Inl e \<Rightarrow> Inl e
         | Inr h1 \<Rightarrow>
             (case add_cables h1 (cables yd) of
                Inl e \<Rightarrow> Inl e
              | Inr h2 \<Rightarrow> Inr (h2, yd)))"

subsection \<open>Checking a connection row\<close>

text \<open>\<^verbatim>\<open>yaml_data[section]\<close> and \<^verbatim>\<open>x in yaml_data[section]\<close>\<close>

fun section_of :: "yaml_data \<Rightarrow> section_key \<Rightarrow> (string \<times> attribs) list" where
  "section_of yd Connectors = connectors yd"
| "section_of yd Cables = cables yd"

definition in_section :: "yaml_data \<Rightarrow> section_key \<Rightarrow> string \<Rightarrow> bool" where
  "in_section yd sec x = (x \<in> set (map fst (section_of yd sec)))"

definition alternating_sections :: "section_key list" where
  "alternating_sections = [Connectors, Cables]"

text \<open>
  The first component of the row, unwrapped from a list or a dict. Subscript 0 of an
  empty row, list or dict raises \<^verbatim>\<open>IndexError\<close>.
\<close>

fun first_item :: "item list \<Rightarrow> error + string" where
  "first_item [] = Inl IndexError"
| "first_item (ItemList [] # _) = Inl IndexError"
| "first_item (ItemList (x # _) # _) = Inr x"
| "first_item (ItemDict [] # _) = Inl IndexError"
| "first_item (ItemDict ((k, _) # _) # _) = Inr k"
| "first_item (ItemStr s # _) = Inr s"

text \<open>
  \<^verbatim>\<open>for index, section in enumerate(alternating_sections)\<close> with its \<^verbatim>\<open>else\<close> branch:
  the index of the first section that holds the id.
\<close>

fun find_section :: "yaml_data \<Rightarrow> string \<Rightarrow> nat \<Rightarrow> section_key list \<Rightarrow> error + nat" where
  "find_section yd x index [] = Inl FirstItemNotFound"
| "find_section yd x index (sec # rest) =
     (if in_section yd sec x then Inr index else find_section yd x (Suc index) rest)"

text \<open>
  The loop that checks the items of a row. \<open>expected_index\<close> is flipped at the beginning
  of every iteration; \<open>itemcount\<close> is \<open>None\<close> until a list or a dict has been seen.
\<close>

fun check_items :: "expander \<Rightarrow> yaml_data \<Rightarrow> nat \<Rightarrow> nat option \<Rightarrow> item list
    \<Rightarrow> error + nat option" where
  "check_items ex yd expected_index itemcount [] = Inr itemcount"
| "check_items ex yd expected_index itemcount (ItemList subitems # rest) =
     (let expected_index = 1 - expected_index;
          expected_section = alternating_sections ! expected_index;
          itemcount_new = length subitems
      in case find (\<lambda>subitem. \<not> in_section yd expected_section subitem) subitems of
           Some subitem \<Rightarrow> Inl (RoleAlternationViolation subitem expected_section)
         | None \<Rightarrow>
             if itemcount \<noteq> None \<and> Some itemcount_new \<noteq> itemcount then Inl CardinalityMismatch
             else check_items ex yd expected_index (Some itemcount_new) rest)"
| "check_items ex yd expected_index itemcount (ItemDict kvs # rest) =
     (let expected_index = 1 - expected_index;
          expected_section = alternating_sections ! expected_index
      in case kvs of
           [(subitem, spec)] \<Rightarrow>
             (case ex spec of
                Inl e \<Rightarrow> Inl e
              | Inr pins \<Rightarrow>
                  let itemcount_new = length pins
                  in if \<not> in_section yd expected_section subitem
                     then Inl (RoleAlternationViolation subitem expected_section)
                     else if itemcount \<noteq> None \<and> Some itemcount_new \<noteq> itemcount
                     then Inl CardinalityMismatch
                     else check_items ex yd expected_index (Some itemcount_new) rest)
         | _ \<Rightarrow> Inl MultiKeyMapping)"
| "check_items ex yd expected_index itemcount (ItemStr s # rest) =
     (let expected_index = 1 - expected_index;
          expected_section = alternating_sections ! expected_index
      in if \<not> in_section yd expected_section s
         then Inl (RoleAlternationViolation s expected_section)
         else check_items ex yd expected_index itemcount rest)"

text \<open>
  The section of the first component: the index that the row starts with. The source
  flips it once before the loop, since the loop flips it back at its first iteration.
\<close>

definition first_section :: "yaml_data \<Rightarrow> item list \<Rightarrow> error + nat" where
  "first_section yd connection =
     (case first_item connection of
        Inl e \<Rightarrow> Inl e
      | Inr x \<Rightarrow> find_section yd x 0 alternating_sections)"

text \<open>
  Everything that is checked on a row before its connection list is built: the first
  item, its section, the items, and that some item revealed the count.
\<close>

definition check_connection :: "expander \<Rightarrow> yaml_data \<Rightarrow> item list \<Rightarrow> error + nat" where
  "check_connection ex yd connection =
     (case first_section yd connection of
        Inl e \<Rightarrow> Inl e
      | Inr index \<Rightarrow>
          (case check_items ex yd (1 - index) None connection of
             Inl e \<Rightarrow> Inl e
           | Inr None \<Rightarrow> Inl NoCardinalityRevealed
           | Inr (Some itemcount) \<Rightarrow> Inr itemcount))"

subsection \<open>Building the connection list\<close>

text \<open>Python's \<^verbatim>\<open>str\<close> of a natural number: its decimal digits.\<close>

definition digit_char :: "nat \<Rightarrow> char" where
  "digit_char d = char_of (48 + d)"

fun str_nat :: "nat \<Rightarrow> string" where
  "str_nat n = (if n < 10 then [digit_char n] else str_nat (n div 10) @ [digit_char (n mod 10)])"

declare str_nat.simps [simp del]

text \<open>\<^verbatim>\<open>f'_{item}_{autogenerated_ids[item]}'\<close>\<close>

definition new_id :: "string \<Rightarrow> nat \<Rightarrow> string" where
  "new_id item n = ''_'' @ item @ ''_'' @ str_nat n"

text \<open>\<^verbatim>\<open>autogenerated_ids.get(item, 0)\<close>\<close>

definition get_count :: "(string \<times> nat) list \<Rightarrow> string \<Rightarrow> nat" where
  "get_count ids item = (case map_of ids item of None \<Rightarrow> 0 | Some n \<Rightarrow> n)"

text \<open>
  The body shared by the loops over a scalar's repetitions and over a list's elements:
  the entry \<open>[id, 1]\<close> of one single-pin component. The subscript
  \<^verbatim>\<open>yaml_data['connectors'][item]\<close> raises \<^verbatim>\<open>KeyError\<close> for an id that is not a connector.
  For a template the counter is incremented first, then the new connector is added.
\<close>

definition single_pin_component :: "yaml_data \<Rightarrow> state \<Rightarrow> string \<Rightarrow> state \<times> (error + string \<times> pin)" where
  "single_pin_component yd st item =
     (case map_of (connectors yd) item of
        None \<Rightarrow> (st, Inl (KeyError item))
      | Some a \<Rightarrow>
          if autogenerate a then
            (let n = get_count (autogenerated_ids st) item + 1;
                 st1 = st\<lparr>autogenerated_ids := AList.update item n (autogenerated_ids st)\<rparr>
             in case add_connector (harness st1) (new_id item n) a of
                  Inl e \<Rightarrow> (st1, Inl e)
                | Inr h \<Rightarrow> (st1\<lparr>harness := h\<rparr>, Inr (new_id item n, PInt 1)))
          else (st, Inr (item, PInt 1)))"

text \<open>\<^verbatim>\<open>for i in range(1, itemcount + 1)\<close>: one entry per repetition of a scalar.\<close>

fun scalar_sublist :: "yaml_data \<Rightarrow> state \<Rightarrow> string \<Rightarrow> nat
    \<Rightarrow> state \<times> (error + (string \<times> pin) list)" where
  "scalar_sublist yd st item 0 = (st, Inr [])"
| "scalar_sublist yd st item (Suc k) =
     (case single_pin_component yd st item of
        (st1, Inl e) \<Rightarrow> (st1, Inl e)
      | (st1, Inr entry) \<Rightarrow>
          (case scalar_sublist yd st1 item k of
             (st2, Inl e) \<Rightarrow> (st2, Inl e)
           | (st2, Inr sublist) \<Rightarrow> (st2, Inr (entry # sublist))))"

text \<open>\<^verbatim>\<open>for subitem in item\<close>: one entry per element of a list.\<close>

fun list_sublist :: "yaml_data \<Rightarrow> state \<Rightarrow> string list
    \<Rightarrow> state \<times> (error + (string \<times> pin) list)" where
  "list_sublist yd st [] = (st, Inr [])"
| "list_sublist yd st (subitem # rest) =
     (case single_pin_component yd st subitem of
        (st1, Inl e) \<Rightarrow> (st1, Inl e)
      | (st1, Inr entry) \<Rightarrow>
          (case list_sublist yd st1 rest of
             (st2, Inl e) \<Rightarrow> (st2, Inl e)
           | (st2, Inr sublist) \<Rightarrow> (st2, Inr (entry # sublist))))"

text \<open>A dict: its first key with every pin of its expanded first value.\<close>

fun dict_sublist :: "expander \<Rightarrow> (string \<times> pinspec) list \<Rightarrow> error + (string \<times> pin) list" where
  "dict_sublist ex [] = Inl IndexError"
| "dict_sublist ex ((name, spec) # _) =
     (case ex spec of
        Inl e \<Rightarrow> Inl e
      | Inr pins \<Rightarrow> Inr (map (\<lambda>pin. (name, pin)) pins))"

text \<open>The sublist of one item of the row.\<close>

fun item_sublist :: "expander \<Rightarrow> yaml_data \<Rightarrow> state \<Rightarrow> nat \<Rightarrow> item
    \<Rightarrow> state \<times> (error + (string \<times> pin) list)" where
  "item_sublist ex yd st itemcount (ItemStr s) = scalar_sublist yd st s itemcount"
| "item_sublist ex yd st itemcount (ItemList subitems) = list_sublist yd st subitems"
| "item_sublist ex yd st itemcount (ItemDict kvs) = (st, dict_sublist ex kvs)"

text \<open>\<^verbatim>\<open>connection_list\<close>: the sublists of the items, in the order of the row.\<close>

fun populate_connection_list :: "expander \<Rightarrow> yaml_data \<Rightarrow> state \<Rightarrow> nat \<Rightarrow> item list
    \<Rightarrow> state \<times> (error + (string \<times> pin) list list)" where
  "populate_connection_list ex yd st itemcount [] = (st, Inr [])"
| "populate_connection_list ex yd st itemcount (item # rest) =
     (case item_sublist ex yd st itemcount item of
        (st1, Inl e) \<Rightarrow> (st1, Inl e)
      | (st1, Inr sublist) \<Rightarrow>
          (case populate_connection_list ex yd st1 itemcount rest of
             (st2, Inl e) \<Rightarrow> (st2, Inl e)
           | (st2, Inr connection_list) \<Rightarrow> (st2, Inr (sublist # connection_list))))"

subsection \<open>Connecting the components\<close>

text \<open>\<^verbatim>\<open>connection_list[i][j]\<close>, raising \<^verbatim>\<open>IndexError\<close> out of range.\<close>

definition subscript :: "'a list \<Rightarrow> nat \<Rightarrow> error + 'a" where
  "subscript xs i = (if i < length xs then Inr (xs ! i) else Inl IndexError)"

definition subscript2 :: "'a list list \<Rightarrow> nat \<Rightarrow> nat \<Rightarrow> error + 'a" where
  "subscript2 xss i j =
     (case subscript xss i of
        Inl e \<Rightarrow> Inl e
      | Inr xs \<Rightarrow> subscript xs j)"

text \<open>
  The arguments of \<^verbatim>\<open>harness.connect\<close> for position \<open>j\<close> of the item at index \<open>i\<close>: the
  source reads the left neighbour, then the item, then the right neighbour.
\<close>

definition link_at :: "(string \<times> pin) list list \<Rightarrow> nat \<Rightarrow> (string \<times> pin) list \<Rightarrow> nat
    \<Rightarrow> error + wirelink" where
  "link_at connection_list i item j =
     (case (if i = 0 then Inr None
            else (case subscript2 connection_list (i - 1) j of
                    Inl e \<Rightarrow> Inl e
                  | Inr p \<Rightarrow> Inr (Some p))) of
        Inl e \<Rightarrow> Inl e
      | Inr frm \<Rightarrow>
          (case subscript item j of
             Inl e \<Rightarrow> Inl e
           | Inr via \<Rightarrow>
               (case (if int i = int (length connection_list) - 1 then Inr None
                      else (case subscript2 connection_list (i + 1) j of
                              Inl e \<Rightarrow> Inl e
                            | Inr p \<Rightarrow> Inr (Some p))) of
                  Inl e \<Rightarrow> Inl e
                | Inr to \<Rightarrow>
                    Inr \<lparr>from_name = map_option fst frm, from_pin = map_option snd frm,
                         via_name = fst via, via_pin = snd via,
                         to_name = map_option fst to, to_pin = map_option snd to\<rparr>)))"

text \<open>\<^verbatim>\<open>for j, con in enumerate(item)\<close>\<close>

fun connect_pins :: "harness \<Rightarrow> (string \<times> pin) list list \<Rightarrow> nat \<Rightarrow> (string \<times> pin) list
    \<Rightarrow> (nat \<times> string \<times> pin) list \<Rightarrow> harness \<times> error option" where
  "connect_pins h connection_list i item [] = (h, None)"
| "connect_pins h connection_list i item ((j, con) # rest) =
     (case link_at connection_list i item j of
        Inl e \<Rightarrow> (h, Some e)
      | Inr l \<Rightarrow> connect_pins (connect h l) connection_list i item rest)"

text \<open>
  \<^verbatim>\<open>for i, item in enumerate(connection_list)\<close>: an item whose first id is a cable of
  the harness is connected; \<^verbatim>\<open>item[0][0]\<close> of an empty item raises \<^verbatim>\<open>IndexError\<close>.
\<close>

fun connect_components :: "harness \<Rightarrow> (string \<times> pin) list list
    \<Rightarrow> (nat \<times> (string \<times> pin) list) list \<Rightarrow> harness \<times> error option" where
  "connect_components h connection_list [] = (h, None)"
| "connect_components h connection_list ((i, item) # rest) =
     (case item of
        [] \<Rightarrow> (h, Some IndexError)
      | (name, _) # _ \<Rightarrow>
          if in_cables h name then
            (case connect_pins h connection_list i item (enumerate 0 item) of
               (h1, Some e) \<Rightarrow> (h1, Some e)
             | (h1, None) \<Rightarrow> connect_components h1 connection_list rest)
          else connect_components h connection_list rest)"

subsection \<open>Rows and documents\<close>

text \<open>
  The body of \<^verbatim>\<open>for connection in yaml_data['connections']\<close>. An exception leaves the
  harness and the counters as they were when it was raised.
\<close>

definition add_connection :: "expander \<Rightarrow> yaml_data \<Rightarrow> state \<Rightarrow> item list
    \<Rightarrow> state \<times> error option" where
  "add_connection ex yd st connection =
     (case check_connection ex yd connection of
        Inl e \<Rightarrow> (st, Some e)
      | Inr itemcount \<Rightarrow>
          (case populate_connection_list ex yd st itemcount connection of
             (st1, Inl e) \<Rightarrow> (st1, Some e)
           | (st1, Inr connection_list) \<Rightarrow>
               (case connect_components (harness st1) connection_list
                       (enumerate 0 connection_list) of
                  (h, r) \<Rightarrow> (st1\<lparr>harness := h\<rparr>, r))))"

fun add_connections :: "expander \<Rightarrow> yaml_data \<Rightarrow> state \<Rightarrow> item list list
    \<Rightarrow> state \<times> error option" where
  "add_connections ex yd st [] = (st, None)"
| "add_connections ex yd st (connection # rest) =
     (case add_connection ex yd st connection of
        (st1, Some e) \<Rightarrow> (st1, Some e)
      | (st1, None) \<Rightarrow> add_connections ex yd st1 rest)"

text \<open>
  \<^verbatim>\<open>parse\<close> with \<^verbatim>\<open>return_types = 'harness'\<close>: the harness, or the exception that ended
  the call. The metadata, options and tweaks of the harness, the title, the additional
  items of the bill of materials and the output files play no part in the connections
  and are left out.
\<close>

definition parse :: "expander \<Rightarrow> document \<Rightarrow> error + harness" where
  "parse ex d =
     (case add_items d of
        Inl e \<Rightarrow> Inl e
      | Inr (h, yd) \<Rightarrow>
          (case add_connections ex yd \<lparr>harness = h, autogenerated_ids = []\<rparr> (connections yd) of
             (st, Some e) \<Rightarrow> Inl e
           | (st, None) \<Rightarrow> Inr (harness st)))"

subsection \<open>What the items of a row reveal\<close>

text \<open>
  The notions in which the properties of the row check are stated. The count that an
  item reveals is the source's \<open>itemcount_new\<close>: the length of a list, the number of
  pins that a mapping's value expands to, and nothing for a scalar.
\<close>

fun revealed_count :: "expander \<Rightarrow> item \<Rightarrow> nat option" where
  "revealed_count ex (ItemStr s) = None"
| "revealed_count ex (ItemList subitems) = Some (length subitems)"
| "revealed_count ex (ItemDict kvs) =
     (case kvs of
        [(subitem, spec)] \<Rightarrow> (case ex spec of Inl e \<Rightarrow> None | Inr pins \<Rightarrow> Some (length pins))
      | _ \<Rightarrow> None)"

text \<open>
  An item passes the checks made on it alone: every id is in the expected section, a
  mapping has one key, and its value expands.
\<close>

fun item_accepted :: "expander \<Rightarrow> yaml_data \<Rightarrow> section_key \<Rightarrow> item \<Rightarrow> bool" where
  "item_accepted ex yd sec (ItemStr s) = in_section yd sec s"
| "item_accepted ex yd sec (ItemList subitems) = list_all (in_section yd sec) subitems"
| "item_accepted ex yd sec (ItemDict kvs) =
     (case kvs of
        [(subitem, spec)] \<Rightarrow> (case ex spec of Inl e \<Rightarrow> False | Inr pins \<Rightarrow> in_section yd sec subitem)
      | _ \<Rightarrow> False)"

fun items_accepted :: "expander \<Rightarrow> yaml_data \<Rightarrow> nat \<Rightarrow> item list \<Rightarrow> bool" where
  "items_accepted ex yd expected_index [] = True"
| "items_accepted ex yd expected_index (item # rest) =
     (item_accepted ex yd (alternating_sections ! (1 - expected_index)) item
      \<and> items_accepted ex yd (1 - expected_index) rest)"

text \<open>The count on which a sequence of revealed counts agrees, if it does.\<close>

definition agreed_count :: "nat list \<Rightarrow> error + nat option" where
  "agreed_count counts =
     (case counts of
        [] \<Rightarrow> Inr None
      | n # later \<Rightarrow> if list_all (\<lambda>m. m = n) later then Inr (Some n) else Inl CardinalityMismatch)"

subsection \<open>The links that a connection list stands for\<close>

text \<open>
  The link emitter in the words of the specification, against which the loops of the
  source are compared. A slot belongs to a cable when the component of its first entry
  is a cable of the harness.
\<close>

definition cable_slot :: "harness \<Rightarrow> (string \<times> pin) list \<Rightarrow> bool" where
  "cable_slot h slot = (case slot of [] \<Rightarrow> False | (name, _) # _ \<Rightarrow> in_cables h name)"

text \<open>
  The link of position \<open>j\<close> of slot \<open>i\<close>: from position \<open>j\<close> of slot \<open>i - 1\<close>, or from
  nothing for the first slot; to position \<open>j\<close> of slot \<open>i + 1\<close>, or to nothing for the
  last slot.
\<close>

definition boundary_link :: "(string \<times> pin) list list \<Rightarrow> nat \<Rightarrow> nat \<Rightarrow> wirelink" where
  "boundary_link slots i j =
     \<lparr>from_name = (if i = 0 then None else Some (fst (slots ! (i - 1) ! j))),
      from_pin = (if i = 0 then None else Some (snd (slots ! (i - 1) ! j))),
      via_name = fst (slots ! i ! j),
      via_pin = snd (slots ! i ! j),
      to_name = (if Suc i = length slots then None else Some (fst (slots ! Suc i ! j))),
      to_pin = (if Suc i = length slots then None else Some (snd (slots ! Suc i ! j)))\<rparr>"

text \<open>One link per position of a cable slot, none for any other slot.\<close>

definition slot_links :: "harness \<Rightarrow> (string \<times> pin) list list \<Rightarrow> nat \<Rightarrow> wirelink list" where
  "slot_links h slots i =
     (if cable_slot h (slots ! i) then map (boundary_link slots i) [0..<length (slots ! i)]
      else [])"

definition row_links :: "harness \<Rightarrow> (string \<times> pin) list list \<Rightarrow> wirelink list" where
  "row_links h slots = concat (map (slot_links h slots) [0..<length slots])"

subsection \<open>The instances of the templates\<close>

text \<open>
  The notions in which the numbering of the generated connectors is stated. A template
  is a connector whose \<^verbatim>\<open>autogenerate\<close> is set.
\<close>

definition is_template :: "yaml_data \<Rightarrow> string \<Rightarrow> bool" where
  "is_template yd item =
     (case map_of (connectors yd) item of None \<Rightarrow> False | Some a \<Rightarrow> autogenerate a)"

text \<open>
  The occurrences of templates in an item, in a row and in a document, in the order in
  which the connection lists are built: a scalar occurs once for every position of the
  row, a list element occurs once, and a mapping never stands for a template.
\<close>

fun item_templates :: "yaml_data \<Rightarrow> nat \<Rightarrow> item \<Rightarrow> string list" where
  "item_templates yd itemcount (ItemStr s) = (if is_template yd s then replicate itemcount s else [])"
| "item_templates yd itemcount (ItemList subitems) = filter (is_template yd) subitems"
| "item_templates yd itemcount (ItemDict kvs) = []"

definition row_templates :: "expander \<Rightarrow> yaml_data \<Rightarrow> item list \<Rightarrow> string list" where
  "row_templates ex yd connection =
     (case check_connection ex yd connection of
        Inl e \<Rightarrow> []
      | Inr itemcount \<Rightarrow> concat (map (item_templates yd itemcount) connection))"

definition document_templates :: "expander \<Rightarrow> document \<Rightarrow> string list" where
  "document_templates ex d =
     concat (map (row_templates ex (with_sections d)) (connections (with_sections d)))"

text \<open>
  An instance is a template with its number; \<open>numbers_of t\<close> are the numbers given to
  the instances of the template \<open>t\<close>, in the order of their creation.
\<close>

definition instance_id :: "string \<times> nat \<Rightarrow> string" where
  "instance_id inst = new_id (fst inst) (snd inst)"

definition numbers_of :: "string \<Rightarrow> (string \<times> nat) list \<Rightarrow> nat list" where
  "numbers_of t insts = map snd (filter (\<lambda>inst. fst inst = t) insts)"

text \<open>
  From one state to a later one the instances \<open>insts\<close> have been generated: their ids
  have been added to the connectors of the harness, and for every template the
  numbers of its instances are those from the old count to the new one.
\<close>

definition generated :: "state \<Rightarrow> state \<Rightarrow> (string \<times> nat) list \<Rightarrow> bool" where
  "generated st st' insts =
     (map fst (h_connectors (harness st'))
        = map fst (h_connectors (harness st)) @ map instance_id insts
      \<and> (\<forall>t. get_count (autogenerated_ids st) t \<le> get_count (autogenerated_ids st') t
            \<and> numbers_of t insts
                = [Suc (get_count (autogenerated_ids st) t)..<
                    Suc (get_count (autogenerated_ids st') t)]))"

subsection \<open>Sample data\<close>

text \<open>
  A sample expander for the examples: a list is its own elements, the range expression
  \<^verbatim>\<open>1-2\<close> is the pins 1 and 2, and any other scalar is a single pin.
\<close>

definition sample_expand :: expander where
  "sample_expand spec =
     (case spec of
        PinList pins \<Rightarrow> Inr pins
      | PinScalar p \<Rightarrow> if p = PStr ''1-2'' then Inr [PInt 1, PInt 2] else Inr [p])"

definition plain :: attribs where
  "plain = \<lparr>autogenerate = False, static = []\<rparr>"

text \<open>Connectors A, B, C, a cable W, and an id Z declared in both sections.\<close>

definition sample_data :: yaml_data where
  "sample_data =
     \<lparr>connectors = [(''A'', plain), (''B'', plain), (''C'', plain), (''Z'', plain)],
      cables = [(''W'', plain), (''Z'', plain)],
      connections = []\<rparr>"

definition sample_state :: state where
  "sample_state =
     \<lparr>harness = \<lparr>h_connectors = [(''A'', plain), (''B'', plain), (''C'', plain), (''Z'', plain)],
                 h_cables = [(''W'', plain), (''Z'', plain)],
                 h_links = []\<rparr>,
      autogenerated_ids = []\<rparr>"

text \<open>
  The scenario of the specification: connectors X and Y with one pin each, a cable W
  with two wires, and the row \<^verbatim>\<open>[[X, X], W, {Y: "1-2"}]\<close>.
\<close>

definition scenario_row :: "item list" where
  "scenario_row =
     [ItemList [''X'', ''X''], ItemStr ''W'', ItemDict [(''Y'', PinScalar (PStr ''1-2''))]]"

definition scenario :: document where
  "scenario =
     \<lparr>doc_connectors = Some [(''X'', \<lparr>autogenerate = False, static = [(''pins'', ''1'')]\<rparr>),
                              (''Y'', \<lparr>autogenerate = False, static = [(''pins'', ''1'')]\<rparr>)],
      doc_cables = Some [(''W'', \<lparr>autogenerate = False, static = [(''wirecount'', ''2'')]\<rparr>)],
      doc_connections = Some [scenario_row]\<rparr>"

text \<open>The same document with the cable of the row written as a mapping.\<close>

definition scenario_mapping :: document where
  "scenario_mapping =
     scenario\<lparr>doc_connections :=
        Some [[ItemList [''X'', ''X''], ItemDict [(''W'', PinScalar (PStr ''1-2''))],
               ItemDict [(''Y'', PinScalar (PStr ''1-2''))]]]\<rparr>"

text \<open>A row that starts and ends with the cable W, given as a mapping of two wires.\<close>

definition sample_row :: "item list" where
  "sample_row =
     [ItemDict [(''W'', PinScalar (PStr ''1-2''))], ItemList [''A'', ''B''],
      ItemDict [(''W'', PinScalar (PStr ''1-2''))]]"

text \<open>
  A document with the template X, used twice in a list and once as a scalar of a row
  of two positions, and once more as a scalar in a second row; and the harness that
  its parse returns.
\<close>

definition template_doc :: document where
  "template_doc =
     \<lparr>doc_connectors = Some [(''X'', \<lparr>autogenerate = True, static = []\<rparr>), (''Y'', plain)],
      doc_cables = Some [(''W'', plain)],
      doc_connections =
        Some [[ItemList [''X'', ''X''], ItemDict [(''W'', PinScalar (PStr ''1-2''))], ItemStr ''X''],
              [ItemDict [(''W'', PinScalar (PStr ''1-2''))], ItemStr ''X'']]\<rparr>"

definition template_harness :: harness where
  "template_harness =
     \<lparr>h_connectors =
        [(''Y'', plain),
         (''_X_1'', \<lparr>autogenerate = True, static = []\<rparr>),
         (''_X_2'', \<lparr>autogenerate = True, static = []\<rparr>),
         (''_X_3'', \<lparr>autogenerate = True, static = []\<rparr>),
         (''_X_4'', \<lparr>autogenerate = True, static = []\<rparr>),
         (''_X_5'', \<lparr>autogenerate = True, static = []\<rparr>),
         (''_X_6'', \<lparr>autogenerate = True, static = []\<rparr>)],
      h_cables = [(''W'', plain)],
      h_links =
        [\<lparr>from_name = Some ''_X_1'', from_pin = Some (PInt 1), via_name = ''W'',
           via_pin = PInt 1, to_name = Some ''_X_3'', to_pin = Some (PInt 1)\<rparr>,
         \<lparr>from_name = Some ''_X_2'', from_pin = Some (PInt 1), via_name = ''W'',
           via_pin = PInt 2, to_name = Some ''_X_4'', to_pin = Some (PInt 1)\<rparr>,
         \<lparr>from_name = None, from_pin = None, via_name = ''W'',
           via_pin = PInt 1, to_name = Some ''_X_5'', to_pin = Some (PInt 1)\<rparr>,
         \<lparr>from_name = None, from_pin = None, via_name = ''W'',
           via_pin = PInt 2, to_name = Some ''_X_6'', to_pin = Some (PInt 1)\<rparr>]\<rparr>"

section \<open>Properties\<close>

subsection \<open>The section of the first item\<close>

lemma alternating_sections_0: "alternating_sections ! 0 = Connectors"
  by (simp add: alternating_sections_def)

lemma alternating_sections_1: "alternating_sections ! Suc 0 = Cables"
  by (simp add: alternating_sections_def)

lemma find_section_connectors:
  "in_section yd Connectors x \<Longrightarrow> find_section yd x 0 alternating_sections = Inr 0"
  by (simp add: alternating_sections_def)

lemma find_section_cables:
  "\<not> in_section yd Connectors x \<Longrightarrow> in_section yd Cables x
    \<Longrightarrow> find_section yd x 0 alternating_sections = Inr 1"
  by (simp add: alternating_sections_def)

text \<open>
  C10. The first item's id, unwrapped from a list or a mapping, is looked up in the
  connectors before the cables: for an id that is in both sections the row starts at
  index 0, which is the connectors section, never at the cables.
\<close>

theorem connectors_looked_up_first:
  "first_item connection = Inr x \<Longrightarrow> in_section yd Connectors x \<Longrightarrow> in_section yd Cables x
    \<Longrightarrow> first_section yd connection = Inr 0 \<and> alternating_sections ! 0 = Connectors"
  by (simp add: first_section_def find_section_connectors alternating_sections_0)

theorem connectors_looked_up_first_witness:
  "first_item [ItemDict [(''Z'', PinScalar (PInt 1))], ItemStr ''A''] = Inr ''Z''
    \<and> in_section sample_data Connectors ''Z'' \<and> in_section sample_data Cables ''Z''
    \<and> first_section sample_data [ItemDict [(''Z'', PinScalar (PInt 1))], ItemStr ''A''] = Inr 0
    \<and> alternating_sections ! 0 = Connectors"
  using connectors_looked_up_first
    [of "[ItemDict [(''Z'', PinScalar (PInt 1))], ItemStr ''A'']" "''Z''" sample_data]
  by (simp add: in_section_def sample_data_def)

subsection \<open>Rows that are rejected\<close>

text \<open>
  C4. A row of three scalars A, B, C that are all declared connectors, B not being a
  cable, fails: B is reported as not being in the cables section.
\<close>

theorem three_connectors_rejected:
  "in_section yd Connectors A \<Longrightarrow> in_section yd Connectors B \<Longrightarrow> in_section yd Connectors C
    \<Longrightarrow> \<not> in_section yd Cables B
    \<Longrightarrow> add_connection ex yd st [ItemStr A, ItemStr B, ItemStr C]
        = (st, Some (RoleAlternationViolation B Cables))"
  by (simp add: add_connection_def check_connection_def first_section_def
      find_section_connectors alternating_sections_0 alternating_sections_1)

theorem three_connectors_rejected_witness:
  "in_section sample_data Connectors ''A'' \<and> in_section sample_data Connectors ''B''
    \<and> in_section sample_data Connectors ''C'' \<and> \<not> in_section sample_data Cables ''B''
    \<and> add_connection sample_expand sample_data sample_state
          [ItemStr ''A'', ItemStr ''B'', ItemStr ''C'']
        = (sample_state, Some (RoleAlternationViolation ''B'' Cables))"
  using three_connectors_rejected
    [of sample_data "''A''" "''B''" "''C''" sample_expand sample_state]
  by (simp add: in_section_def sample_data_def)

lemma check_items_scalars:
  "check_items ex yd e ic (map ItemStr ids) = Inr r \<Longrightarrow> r = ic"
  by (induction ids arbitrary: e) (auto simp: Let_def split: if_splits)

text \<open>
  C6. A row whose items are all bare scalars has no item that determines a count: once
  the first item has been found and every item has passed the check of its section,
  the row fails with NoCardinalityRevealed, and the state is as it was.
\<close>

theorem scalars_reveal_nothing:
  "connection = map ItemStr ids \<Longrightarrow> first_section yd connection = Inr index
    \<Longrightarrow> check_items ex yd (1 - index) None connection = Inr itemcount
    \<Longrightarrow> add_connection ex yd st connection = (st, Some NoCardinalityRevealed)"
  using check_items_scalars [of ex yd "1 - index" None ids itemcount]
  by (simp add: add_connection_def check_connection_def)

theorem scalars_reveal_nothing_witness:
  "[ItemStr ''A'', ItemStr ''W'', ItemStr ''B''] = map ItemStr [''A'', ''W'', ''B'']
    \<and> first_section sample_data [ItemStr ''A'', ItemStr ''W'', ItemStr ''B''] = Inr 0
    \<and> check_items sample_expand sample_data (1 - 0) None
          [ItemStr ''A'', ItemStr ''W'', ItemStr ''B''] = Inr None
    \<and> add_connection sample_expand sample_data sample_state
          [ItemStr ''A'', ItemStr ''W'', ItemStr ''B'']
        = (sample_state, Some NoCardinalityRevealed)"
  using scalars_reveal_nothing
    [of "[ItemStr ''A'', ItemStr ''W'', ItemStr ''B'']" "[''A'', ''W'', ''B'']"
      sample_data 0 sample_expand None sample_state]
  by (simp add: first_section_def in_section_def sample_data_def alternating_sections_def)

text \<open>
  C2. As the claim states it, it fails: the row of the two scalars W (a cable) and A (a
  connector) is not processed successfully, it ends with NoCardinalityRevealed.
\<close>

theorem scalar_pair_fails:
  "snd (add_connection sample_expand sample_data sample_state [ItemStr ''W'', ItemStr ''A''])
     = Some NoCardinalityRevealed"
  by (simp add: add_connection_def check_connection_def first_section_def
      alternating_sections_def in_section_def sample_data_def)

text \<open>
  C2, amended. For a declared cable that is not also a connector id and a declared
  connector, both orders of the two scalars pass the inference of the first section and
  the check of the items, starting at opposite indices (1, the cables, and 0, the
  connectors); as neither row has a list or a mapping, each then ends with
  NoCardinalityRevealed and leaves the state as it was.
\<close>

theorem either_role_may_start:
  "in_section yd Cables cableA \<Longrightarrow> \<not> in_section yd Connectors cableA
    \<Longrightarrow> in_section yd Connectors connB
    \<Longrightarrow> first_section yd [ItemStr cableA, ItemStr connB] = Inr 1
      \<and> first_section yd [ItemStr connB, ItemStr cableA] = Inr 0
      \<and> check_items ex yd (1 - 1) None [ItemStr cableA, ItemStr connB] = Inr None
      \<and> check_items ex yd (1 - 0) None [ItemStr connB, ItemStr cableA] = Inr None
      \<and> add_connection ex yd st [ItemStr cableA, ItemStr connB] = (st, Some NoCardinalityRevealed)
      \<and> add_connection ex yd st [ItemStr connB, ItemStr cableA] = (st, Some NoCardinalityRevealed)"
  by (simp add: add_connection_def check_connection_def first_section_def
      find_section_connectors find_section_cables alternating_sections_0 alternating_sections_1)

theorem either_role_may_start_witness:
  "in_section sample_data Cables ''W'' \<and> \<not> in_section sample_data Connectors ''W''
    \<and> in_section sample_data Connectors ''A''
    \<and> first_section sample_data [ItemStr ''W'', ItemStr ''A''] = Inr 1
    \<and> first_section sample_data [ItemStr ''A'', ItemStr ''W''] = Inr 0
    \<and> check_items sample_expand sample_data (1 - 1) None [ItemStr ''W'', ItemStr ''A''] = Inr None
    \<and> check_items sample_expand sample_data (1 - 0) None [ItemStr ''A'', ItemStr ''W''] = Inr None
    \<and> add_connection sample_expand sample_data sample_state [ItemStr ''W'', ItemStr ''A'']
        = (sample_state, Some NoCardinalityRevealed)
    \<and> add_connection sample_expand sample_data sample_state [ItemStr ''A'', ItemStr ''W'']
        = (sample_state, Some NoCardinalityRevealed)"
  using either_role_may_start [of sample_data "''W''" "''A''" sample_expand sample_state]
  by (simp add: in_section_def sample_data_def)

subsection \<open>The checks come first\<close>

text \<open>
  C3. The whole check of a row (the section of every item and subitem, the single key
  of a mapping, the agreement of the counts, and that a count was revealed) is done
  before the connection list is built and before anything is connected: a row that
  fails any of these checks ends with that error, with the state, and so the links,
  as they were.
\<close>

theorem checks_precede_links:
  "check_connection ex yd connection = Inl e
    \<Longrightarrow> add_connection ex yd st connection = (st, Some e)
        \<and> h_links (harness (fst (add_connection ex yd st connection))) = h_links (harness st)"
  by (simp add: add_connection_def)

theorem checks_precede_links_witness:
  "check_connection sample_expand sample_data
      [ItemList [''A'', ''B''],
       ItemDict [(''W'', PinScalar (PStr ''1-2'')), (''Z'', PinScalar (PInt 3))]]
      = Inl MultiKeyMapping
    \<and> add_connection sample_expand sample_data sample_state
         [ItemList [''A'', ''B''],
          ItemDict [(''W'', PinScalar (PStr ''1-2'')), (''Z'', PinScalar (PInt 3))]]
        = (sample_state, Some MultiKeyMapping)
    \<and> h_links (harness (fst (add_connection sample_expand sample_data sample_state
         [ItemList [''A'', ''B''],
          ItemDict [(''W'', PinScalar (PStr ''1-2'')), (''Z'', PinScalar (PInt 3))]])))
        = h_links (harness sample_state)"
  using checks_precede_links [of sample_expand sample_data
      "[ItemList [''A'', ''B''],
        ItemDict [(''W'', PinScalar (PStr ''1-2'')), (''Z'', PinScalar (PInt 3))]]"
      MultiKeyMapping sample_state]
  by (simp add: check_connection_def first_section_def in_section_def sample_data_def
      alternating_sections_def)

subsection \<open>The first revealed count fixes the cardinality\<close>

lemma item_accepted_dict:
  assumes "item_accepted ex yd sec (ItemDict kvs)"
  obtains subitem spec pins where "kvs = [(subitem, spec)]" "ex spec = Inr pins"
    "in_section yd sec subitem"
proof (cases kvs)
  case Nil
  with assms show ?thesis by simp
next
  case (Cons kv more)
  obtain k spec where kv: "kv = (k, spec)" by (cases kv)
  show ?thesis
  proof (cases more)
    case Nil
    with assms Cons kv that show ?thesis by (cases "ex spec") auto
  next
    case (Cons kv2 more2)
    with assms \<open>kvs = kv # more\<close> kv show ?thesis by simp
  qed
qed

lemma check_items_accepted:
  "items_accepted ex yd e items
    \<Longrightarrow> check_items ex yd e ic items
        = agreed_count ((case ic of None \<Rightarrow> [] | Some n \<Rightarrow> [n])
            @ List.map_filter (revealed_count ex) items)"
proof (induction items arbitrary: e ic)
  case Nil
  then show ?case by (cases ic) (simp_all add: agreed_count_def)
next
  case (Cons item items)
  from Cons.prems have rest: "items_accepted ex yd (1 - e) items" by simp
  show ?case
  proof (cases item)
    case (ItemStr s)
    with Cons show ?thesis by simp
  next
    case (ItemList subitems)
    with Cons.prems
    have none: "find (\<lambda>subitem. \<not> in_section yd (alternating_sections ! (1 - e)) subitem)
        subitems = None"
      by (simp add: find_None_iff list_all_iff)
    show ?thesis
      using Cons.IH [OF rest, of "Some (length subitems)"] none ItemList
      by (cases ic) (auto simp: agreed_count_def Let_def)
  next
    case (ItemDict kvs)
    with Cons.prems
    have "item_accepted ex yd (alternating_sections ! (1 - e)) (ItemDict kvs)"
      by simp
    then obtain subitem spec pins where
      kvs: "kvs = [(subitem, spec)]" and pins: "ex spec = Inr pins"
      and sec: "in_section yd (alternating_sections ! (1 - e)) subitem"
      by (rule item_accepted_dict)
    show ?thesis
      using Cons.IH [OF rest, of "Some (length pins)"] kvs pins sec ItemDict
      by (cases ic) (auto simp: agreed_count_def Let_def)
  qed
qed

text \<open>
  C5. In a row whose items each pass the checks made on them alone, the first list or
  mapping fixes the cardinality (the length of the list, or of the expanded pins), and
  the row fails with CardinalityMismatch as soon as a later list or mapping reveals
  another count; a row without any list or mapping reveals none.
\<close>

theorem first_count_fixes_cardinality:
  "first_section yd connection = Inr index
    \<Longrightarrow> items_accepted ex yd (1 - index) connection
    \<Longrightarrow> check_connection ex yd connection =
          (case List.map_filter (revealed_count ex) connection of
             [] \<Rightarrow> Inl NoCardinalityRevealed
           | n # later \<Rightarrow>
               if list_all (\<lambda>m. m = n) later then Inr n else Inl CardinalityMismatch)"
  using check_items_accepted [of ex yd "1 - index" connection None]
  by (simp add: check_connection_def agreed_count_def split: list.splits)

text \<open>The mapping of two pins followed by a list of three elements.\<close>

theorem first_count_fixes_cardinality_witness:
  "first_section sample_data
      [ItemDict [(''A'', PinScalar (PStr ''1-2''))], ItemList [''W'', ''W'', ''W'']] = Inr 0
    \<and> items_accepted sample_expand sample_data (1 - 0)
      [ItemDict [(''A'', PinScalar (PStr ''1-2''))], ItemList [''W'', ''W'', ''W'']]
    \<and> check_connection sample_expand sample_data
      [ItemDict [(''A'', PinScalar (PStr ''1-2''))], ItemList [''W'', ''W'', ''W'']]
        = Inl CardinalityMismatch"
  using first_count_fixes_cardinality [of sample_data
      "[ItemDict [(''A'', PinScalar (PStr ''1-2''))], ItemList [''W'', ''W'', ''W'']]"
      0 sample_expand]
  by (simp add: first_section_def in_section_def sample_data_def alternating_sections_def
      sample_expand_def)

subsection \<open>The scenario of the specification\<close>

text \<open>
  C1. As the claim states it, it fails: on the scenario the parse makes no wire link, it
  ends with \<^verbatim>\<open>KeyError: 'W'\<close>, raised when the connection list is built and the scalar
  W is looked up among the connectors.
\<close>

theorem scenario_key_error:
  "parse sample_expand scenario = Inl (KeyError ''W'')"
  by (simp add: parse_def scenario_def scenario_row_def add_items_def with_sections_def section_or_empty_def
      empty_harness_def add_connector_def add_cable_def add_connection_def check_connection_def
      first_section_def alternating_sections_def in_section_def single_pin_component_def
      sample_expand_def)

text \<open>
  C1, amended. For the document of the scenario, the row \<^verbatim>\<open>[[X, X], W, {Y: "1-2"}]\<close>
  passes the check of the row with the count 2; and with the cable given as the
  mapping \<^verbatim>\<open>{W: "1-2"}\<close> the parse succeeds and makes exactly the two wire links
  (X,1)-W,1-(Y,1) and (X,1)-W,2-(Y,2).
\<close>

theorem scenario_with_mapping:
  "ex (PinScalar (PStr ''1-2'')) = Inr [PInt 1, PInt 2]
    \<Longrightarrow> (\<exists>h yd. add_items scenario = Inr (h, yd) \<and> connections yd = [scenario_row]
          \<and> check_connection ex yd scenario_row = Inr 2)
      \<and> map_sum id h_links (parse ex scenario_mapping) =
          Inr [\<lparr>from_name = Some ''X'', from_pin = Some (PInt 1), via_name = ''W'',
                via_pin = PInt 1, to_name = Some ''Y'', to_pin = Some (PInt 1)\<rparr>,
               \<lparr>from_name = Some ''X'', from_pin = Some (PInt 1), via_name = ''W'',
                via_pin = PInt 2, to_name = Some ''Y'', to_pin = Some (PInt 2)\<rparr>]"
  by (simp add: parse_def scenario_def scenario_mapping_def scenario_row_def add_items_def
      with_sections_def section_or_empty_def empty_harness_def add_connector_def add_cable_def add_connection_def
      check_connection_def first_section_def alternating_sections_def in_section_def
      single_pin_component_def in_cables_def link_at_def subscript_def subscript2_def
      connect_def)

theorem scenario_with_mapping_witness:
  "sample_expand (PinScalar (PStr ''1-2'')) = Inr [PInt 1, PInt 2]
    \<and> (\<exists>h yd. add_items scenario = Inr (h, yd) \<and> connections yd = [scenario_row]
          \<and> check_connection sample_expand yd scenario_row = Inr 2)
    \<and> map_sum id h_links (parse sample_expand scenario_mapping) =
          Inr [\<lparr>from_name = Some ''X'', from_pin = Some (PInt 1), via_name = ''W'',
                via_pin = PInt 1, to_name = Some ''Y'', to_pin = Some (PInt 1)\<rparr>,
               \<lparr>from_name = Some ''X'', from_pin = Some (PInt 1), via_name = ''W'',
                via_pin = PInt 2, to_name = Some ''Y'', to_pin = Some (PInt 2)\<rparr>]"
  using scenario_with_mapping [of sample_expand] by (simp add: sample_expand_def)

subsection \<open>The links of a row\<close>

lemma subscript_in_range: "i < length xs \<Longrightarrow> subscript xs i = Inr (xs ! i)"
  by (simp add: subscript_def)

lemma subscript2_in_range:
  "i < length xss \<Longrightarrow> j < length (xss ! i) \<Longrightarrow> subscript2 xss i j = Inr (xss ! i ! j)"
  by (simp add: subscript2_def subscript_in_range)

lemma link_at_in_range:
  assumes i: "i < length cl" and n: "list_all (\<lambda>slot. length slot = n) cl" and j: "j < n"
  shows "link_at cl i (cl ! i) j = Inr (boundary_link cl i j)"
proof -
  have len: "length (cl ! k) = n" if "k < length cl" for k
    using n that by (simp add: list_all_length)
  have via: "subscript (cl ! i) j = Inr (cl ! i ! j)"
    using i j len by (simp add: subscript_in_range)
  have frm: "subscript2 cl (i - 1) j = Inr (cl ! (i - 1) ! j)"
    using i j len [of "i - 1"] by (simp add: subscript2_in_range)
  have last: "(int i = int (length cl) - 1) = (Suc i = length cl)"
    using i by auto
  have to: "subscript2 cl (i + 1) j = Inr (cl ! Suc i ! j)" if "Suc i \<noteq> length cl"
    using that i j len [of "Suc i"] by (simp add: subscript2_in_range)
  show ?thesis
    using via frm last to by (auto simp: link_at_def boundary_link_def)
qed

lemma connect_pins_all:
  "(\<And>j. k \<le> j \<Longrightarrow> j < k + length xs \<Longrightarrow> link_at cl i item j = Inr (f j))
    \<Longrightarrow> connect_pins h cl i item (enumerate k xs)
        = (h\<lparr>h_links := h_links h @ map f [k..<k + length xs]\<rparr>, None)"
proof (induction xs arbitrary: k h)
  case Nil
  then show ?case by simp
next
  case (Cons x xs)
  have here: "link_at cl i item k = Inr (f k)" by (rule Cons.prems) simp_all
  have upt: "[k..<k + length (x # xs)] = k # [Suc k..<Suc k + length xs]"
    by (simp add: upt_conv_Cons del: upt_Suc)
  have "connect_pins (connect h (f k)) cl i item (enumerate (Suc k) xs)
      = ((connect h (f k))\<lparr>h_links := h_links (connect h (f k)) @ map f [Suc k..<Suc k + length xs]\<rparr>, None)"
    by (rule Cons.IH) (simp_all add: Cons.prems)
  then show ?case
    using here unfolding upt by (simp add: connect_def del: upt_Suc)
qed

lemma cable_slot_links [simp]: "cable_slot (h\<lparr>h_links := ls\<rparr>) slot = cable_slot h slot"
  by (simp add: cable_slot_def in_cables_def split: list.splits)

lemma slot_links_links [simp]: "slot_links (h\<lparr>h_links := ls\<rparr>) cl = slot_links h cl"
  by (rule ext) (simp add: slot_links_def)

lemma connect_components_from:
  assumes n: "list_all (\<lambda>slot. length slot = n) cl" and pos: "0 < n"
  shows "k \<le> length cl
    \<Longrightarrow> connect_components h cl (enumerate k (drop k cl))
        = (h\<lparr>h_links := h_links h @ concat (map (slot_links h cl) [k..<length cl])\<rparr>, None)"
proof (induction "length cl - k" arbitrary: k h)
  case 0
  then show ?case by simp
next
  case (Suc d)
  then have k: "k < length cl" by simp
  have len: "length (cl ! k) = n" using n k by (simp add: list_all_length)
  with pos obtain name p more where item: "cl ! k = (name, p) # more"
    by (cases "cl ! k") auto
  have drop: "drop k cl = cl ! k # drop (Suc k) cl"
    using k by (simp add: Cons_nth_drop_Suc)
  have upt: "[k..<length cl] = k # [Suc k..<length cl]"
    using k by (simp add: upt_conv_Cons)
  have pins: "connect_pins h cl k (cl ! k) (enumerate 0 (cl ! k))
      = (h\<lparr>h_links := h_links h @ map (boundary_link cl k) [0..<0 + length (cl ! k)]\<rparr>, None)"
    by (rule connect_pins_all) (simp add: link_at_in_range [OF k n] len)
  have IH: "connect_components h' cl (enumerate (Suc k) (drop (Suc k) cl))
      = (h'\<lparr>h_links := h_links h' @ concat (map (slot_links h' cl) [Suc k..<length cl])\<rparr>, None)"
    for h'
    using Suc.hyps(1) [of "Suc k" h'] Suc.hyps(2) k by simp
  show ?case
  proof (cases "in_cables h name")
    case True
    then have "slot_links h cl k = map (boundary_link cl k) [0..<length (cl ! k)]"
      by (simp add: slot_links_def cable_slot_def item)
    then show ?thesis
      using True pins IH by (simp add: drop upt item [symmetric]) (simp add: item)
  next
    case False
    then have "slot_links h cl k = []"
      by (simp add: slot_links_def cable_slot_def item)
    then show ?thesis
      using False IH by (simp add: drop upt item [symmetric]) (simp add: item)
  qed
qed


lemma single_pin_component_harness:
  "single_pin_component yd st item = (st', r)
    \<Longrightarrow> h_links (harness st') = h_links (harness st) \<and> h_cables (harness st') = h_cables (harness st)"
  by (auto simp: single_pin_component_def add_connector_def Let_def
      split: option.splits if_splits sum.splits)

lemma scalar_sublist_shape:
  "scalar_sublist yd st item k = (st', r)
    \<Longrightarrow> h_links (harness st') = h_links (harness st) \<and> h_cables (harness st') = h_cables (harness st)
      \<and> (\<forall>sublist. r = Inr sublist \<longrightarrow> length sublist = k)"
proof (induction k arbitrary: st st' r)
  case 0
  then show ?case by auto
next
  case (Suc k)
  obtain st1 r1 where one: "single_pin_component yd st item = (st1, r1)" by force
  note h1 = single_pin_component_harness [OF one]
  show ?case
  proof (cases r1)
    case (Inl e)
    with Suc.prems one h1 show ?thesis by auto
  next
    case (Inr entry)
    obtain st2 r2 where more: "scalar_sublist yd st1 item k = (st2, r2)" by force
    from Suc.IH [OF more] Suc.prems one h1 Inr more show ?thesis
      by (auto split: sum.splits)
  qed
qed

lemma list_sublist_shape:
  "list_sublist yd st subitems = (st', r)
    \<Longrightarrow> h_links (harness st') = h_links (harness st) \<and> h_cables (harness st') = h_cables (harness st)
      \<and> (\<forall>sublist. r = Inr sublist \<longrightarrow> length sublist = length subitems)"
proof (induction subitems arbitrary: st st' r)
  case Nil
  then show ?case by auto
next
  case (Cons subitem subitems)
  obtain st1 r1 where one: "single_pin_component yd st subitem = (st1, r1)" by force
  note h1 = single_pin_component_harness [OF one]
  show ?case
  proof (cases r1)
    case (Inl e)
    with Cons.prems one h1 show ?thesis by auto
  next
    case (Inr entry)
    obtain st2 r2 where more: "list_sublist yd st1 subitems = (st2, r2)" by force
    from Cons.IH [OF more] Cons.prems one h1 Inr more show ?thesis
      by (auto split: sum.splits)
  qed
qed

lemma dict_sublist_shape:
  "kvs = [(subitem, spec)] \<Longrightarrow> ex spec = Inr pins \<Longrightarrow> dict_sublist ex kvs = Inr sublist
    \<Longrightarrow> length sublist = length pins"
  by auto

text \<open>What a successful check says about each item, for the count \<open>r\<close> it returns.\<close>

lemma check_items_counts:
  "check_items ex yd e ic items = Inr r
    \<Longrightarrow> (ic \<noteq> None \<longrightarrow> r = ic)
      \<and> (\<forall>item \<in> set items. \<forall>n. revealed_count ex item = Some n \<longrightarrow> r = Some n)
      \<and> (\<forall>kvs. ItemDict kvs \<in> set items \<longrightarrow> revealed_count ex (ItemDict kvs) \<noteq> None)"
proof (induction items arbitrary: e ic)
  case Nil
  then show ?case by simp
next
  case (Cons item items)
  show ?case
  proof (cases item)
    case (ItemStr s)
    with Cons.prems have "check_items ex yd (1 - e) ic items = Inr r"
      by (simp add: Let_def split: if_splits)
    from Cons.IH [OF this] ItemStr show ?thesis by auto
  next
    case (ItemList subitems)
    with Cons.prems have rest: "check_items ex yd (1 - e) (Some (length subitems)) items = Inr r"
      and ic: "ic = None \<or> ic = Some (length subitems)"
      by (auto simp: Let_def split: if_splits option.splits)
    from Cons.IH [OF rest] ic ItemList show ?thesis by auto
  next
    case (ItemDict kvs)
    show ?thesis
    proof (cases kvs)
      case Nil
      with Cons.prems ItemDict show ?thesis by simp
    next
      case outer: (Cons kv more)
      obtain k spec where kv: "kv = (k, spec)" by (cases kv)
      show ?thesis
      proof (cases more)
        case (Cons kv2 more2)
        with Cons.prems ItemDict outer kv show ?thesis by simp
      next
        case Nil
        show ?thesis
        proof (cases "ex spec")
          case (Inl err)
          with Cons.prems ItemDict outer kv Nil show ?thesis by simp
        next
          case (Inr pins)
          with Cons.prems ItemDict outer kv Nil
          have rest: "check_items ex yd (1 - e) (Some (length pins)) items = Inr r"
            and ic: "ic = None \<or> ic = Some (length pins)"
            by (auto simp: Let_def split: if_splits option.splits)
          from Cons.IH [OF rest] ic ItemDict outer kv Nil Inr show ?thesis by auto
        qed
      qed
    qed
  qed
qed

lemma revealed_count_dict:
  assumes "revealed_count ex (ItemDict kvs) = Some n"
  obtains subitem spec pins where "kvs = [(subitem, spec)]" "ex spec = Inr pins" "length pins = n"
proof (cases kvs)
  case Nil
  with assms show ?thesis by simp
next
  case (Cons kv more)
  obtain k spec where kv: "kv = (k, spec)" by (cases kv)
  show ?thesis
  proof (cases more)
    case Nil
    with assms Cons kv that show ?thesis by (cases "ex spec") auto
  next
    case (Cons kv2 more2)
    with assms \<open>kvs = kv # more\<close> kv show ?thesis by simp
  qed
qed

lemma item_sublist_shape:
  assumes "item_sublist ex yd st n item = (st', r)"
    and "\<And>m. revealed_count ex item = Some m \<Longrightarrow> m = n"
    and "\<And>kvs. item = ItemDict kvs \<Longrightarrow> revealed_count ex item \<noteq> None"
  shows "h_links (harness st') = h_links (harness st) \<and> h_cables (harness st') = h_cables (harness st)
      \<and> (\<forall>sublist. r = Inr sublist \<longrightarrow> length sublist = n)"
proof (cases item)
  case (ItemStr s)
  with assms(1) scalar_sublist_shape [of yd st s n st' r] show ?thesis by simp
next
  case (ItemList subitems)
  with assms(1,2) list_sublist_shape [of yd st subitems st' r] show ?thesis by simp
next
  case (ItemDict kvs)
  with assms(3) obtain m where m: "revealed_count ex (ItemDict kvs) = Some m" by auto
  with assms(2) ItemDict have "m = n" by simp
  from m obtain subitem spec pins where
    "kvs = [(subitem, spec)]" "ex spec = Inr pins" "length pins = m"
    by (rule revealed_count_dict)
  with assms(1) ItemDict \<open>m = n\<close> show ?thesis by auto
qed

lemma populate_connection_list_shape:
  assumes counts: "\<And>item m. item \<in> set items \<Longrightarrow> revealed_count ex item = Some m \<Longrightarrow> m = n"
    and dicts: "\<And>kvs. ItemDict kvs \<in> set items \<Longrightarrow> revealed_count ex (ItemDict kvs) \<noteq> None"
  shows "populate_connection_list ex yd st n items = (st', r)
    \<Longrightarrow> h_links (harness st') = h_links (harness st) \<and> h_cables (harness st') = h_cables (harness st)
      \<and> (\<forall>cl. r = Inr cl \<longrightarrow> length cl = length items \<and> list_all (\<lambda>slot. length slot = n) cl)"
  using counts dicts
proof (induction items arbitrary: st st' r)
  case Nil
  then show ?case by auto
next
  case (Cons item items)
  obtain st1 r1 where one: "item_sublist ex yd st n item = (st1, r1)" by force
  have h1: "h_links (harness st1) = h_links (harness st) \<and> h_cables (harness st1) = h_cables (harness st)
      \<and> (\<forall>sublist. r1 = Inr sublist \<longrightarrow> length sublist = n)"
    by (rule item_sublist_shape [OF one]) (use Cons.prems in auto)
  show ?case
  proof (cases r1)
    case (Inl e)
    with Cons.prems(1) one h1 show ?thesis by auto
  next
    case (Inr sublist)
    obtain st2 r2 where more: "populate_connection_list ex yd st1 n items = (st2, r2)" by force
    have "h_links (harness st2) = h_links (harness st1) \<and> h_cables (harness st2) = h_cables (harness st1)
      \<and> (\<forall>cl. r2 = Inr cl \<longrightarrow> length cl = length items \<and> list_all (\<lambda>slot. length slot = n) cl)"
      by (rule Cons.IH [OF more]) (use Cons.prems in auto)
    with Cons.prems(1) one h1 Inr more show ?thesis
      by (auto split: sum.splits)
  qed
qed


lemma connect_components_empty_slot:
  "connect_components h cl (enumerate k ([] # rest)) = (h, Some IndexError)"
  by simp

lemma slot_links_cables:
  "h_cables h1 = h_cables h2 \<Longrightarrow> slot_links h1 cl = slot_links h2 cl"
  by (rule ext) (simp add: slot_links_def cable_slot_def in_cables_def split: list.splits)

lemma row_links_cables:
  "h_cables h1 = h_cables h2 \<Longrightarrow> row_links h1 cl = row_links h2 cl"
  using slot_links_cables [of h1 h2 cl] by (simp add: row_links_def)

lemma add_connection_links:
  assumes ok: "snd (add_connection ex yd st connection) = None"
  obtains n st1 cl where
    "check_connection ex yd connection = Inr n"
    "populate_connection_list ex yd st n connection = (st1, Inr cl)"
    "cl \<noteq> []" "list_all (\<lambda>slot. length slot = n) cl" "0 < n"
    "h_links (harness (fst (add_connection ex yd st connection)))
      = h_links (harness st) @ row_links (harness st) cl"
proof -
  from ok obtain n where check: "check_connection ex yd connection = Inr n"
    by (cases "check_connection ex yd connection") (auto simp: add_connection_def)
  then obtain index where first: "first_section yd connection = Inr index"
    and items: "check_items ex yd (1 - index) None connection = Inr (Some n)"
    by (auto simp: check_connection_def split: sum.splits option.splits)
  from first have nonempty: "connection \<noteq> []"
    by (auto simp: first_section_def)
  obtain st1 r1 where pop: "populate_connection_list ex yd st n connection = (st1, r1)"
    by force
  with ok check obtain cl where r1: "r1 = Inr cl"
    by (cases r1) (auto simp: add_connection_def)
  note counts = check_items_counts [OF items]
  have shape: "h_links (harness st1) = h_links (harness st)
      \<and> h_cables (harness st1) = h_cables (harness st)
      \<and> (\<forall>cl. r1 = Inr cl \<longrightarrow> length cl = length connection \<and> list_all (\<lambda>slot. length slot = n) cl)"
    by (rule populate_connection_list_shape [OF _ _ pop]) (use counts in auto)
  with r1 have len: "length cl = length connection" and all: "list_all (\<lambda>slot. length slot = n) cl"
    by auto
  obtain h r where con: "connect_components (harness st1) cl (enumerate 0 cl) = (h, r)"
    by force
  with ok check pop r1 have r: "r = None" and fst: "fst (add_connection ex yd st connection) = st1\<lparr>harness := h\<rparr>"
    by (auto simp: add_connection_def)
  have pos: "0 < n"
  proof (rule ccontr)
    assume "\<not> 0 < n"
    with all have "list_all (\<lambda>slot. slot = []) cl" by (simp add: list_all_iff)
    with nonempty len obtain rest where "cl = [] # rest" by (cases cl) auto
    with con r show False by simp
  qed
  from connect_components_from [OF all pos, of 0 "harness st1"] con
  have "h_links h = h_links (harness st1) @ row_links (harness st1) cl"
    by (auto simp: row_links_def)
  with shape fst have "h_links (harness (fst (add_connection ex yd st connection)))
      = h_links (harness st) @ row_links (harness st) cl"
    by (simp add: row_links_cables [of "harness st1" "harness st"])
  moreover from nonempty len have "cl \<noteq> []" by auto
  ultimately show ?thesis using check pop r1 all pos that by blast
qed

lemma sample_row_ok:
  "snd (add_connection sample_expand sample_data sample_state sample_row) = None"
  by (simp add: add_connection_def check_connection_def first_section_def sample_row_def
      alternating_sections_def in_section_def sample_data_def sample_state_def sample_expand_def
      in_cables_def link_at_def subscript_def subscript2_def connect_def
      single_pin_component_def plain_def)





text \<open>
  C9. The links that a row adds are those of its cable slots, slot by slot and position
  by position: the link of position \<open>j\<close> of slot \<open>i\<close> goes from position \<open>j\<close> of slot
  \<open>i - 1\<close> to position \<open>j\<close> of slot \<open>i + 1\<close>. Every link of the first slot has no
  origin, and every link of the last slot has no destination.
\<close>

theorem links_at_the_boundaries:
  "snd (add_connection ex yd st connection) = None
    \<Longrightarrow> \<exists>n st1 cl.
          check_connection ex yd connection = Inr n
        \<and> populate_connection_list ex yd st n connection = (st1, Inr cl)
        \<and> h_links (harness (fst (add_connection ex yd st connection)))
            = h_links (harness st) @ concat (map (slot_links (harness st) cl) [0..<length cl])
        \<and> list_all (\<lambda>l. from_name l = None \<and> from_pin l = None) (slot_links (harness st) cl 0)
        \<and> list_all (\<lambda>l. to_name l = None \<and> to_pin l = None)
            (slot_links (harness st) cl (length cl - 1))"
proof -
  assume "snd (add_connection ex yd st connection) = None"
  then obtain n st1 cl where
    "check_connection ex yd connection = Inr n"
    "populate_connection_list ex yd st n connection = (st1, Inr cl)"
    "cl \<noteq> []"
    "h_links (harness (fst (add_connection ex yd st connection)))
      = h_links (harness st) @ row_links (harness st) cl"
    by (rule add_connection_links)
  moreover have "list_all (\<lambda>l. from_name l = None \<and> from_pin l = None) (slot_links (harness st) cl 0)"
    by (auto simp: slot_links_def list_all_iff boundary_link_def)
  moreover from \<open>cl \<noteq> []\<close> have "Suc (length cl - 1) = length cl" by (cases cl) auto
  then have "list_all (\<lambda>l. to_name l = None \<and> to_pin l = None)
      (slot_links (harness st) cl (length cl - 1))"
    by (auto simp: slot_links_def list_all_iff boundary_link_def)
  ultimately show ?thesis
    unfolding row_links_def by blast
qed

theorem links_at_the_boundaries_witness:
  "snd (add_connection sample_expand sample_data sample_state sample_row) = None
    \<and> (\<exists>n st1 cl.
          check_connection sample_expand sample_data sample_row = Inr n
        \<and> populate_connection_list sample_expand sample_data sample_state n sample_row
            = (st1, Inr cl)
        \<and> h_links (harness (fst (add_connection sample_expand sample_data sample_state
              sample_row)))
            = h_links (harness sample_state)
              @ concat (map (slot_links (harness sample_state) cl) [0..<length cl])
        \<and> list_all (\<lambda>l. from_name l = None \<and> from_pin l = None)
            (slot_links (harness sample_state) cl 0)
        \<and> list_all (\<lambda>l. to_name l = None \<and> to_pin l = None)
            (slot_links (harness sample_state) cl (length cl - 1)))"
  using links_at_the_boundaries [OF sample_row_ok] sample_row_ok by (rule conjI [rotated])

subsection \<open>The numbering of generated connectors\<close>

lemma digit_char_inj: "a < 10 \<Longrightarrow> b < 10 \<Longrightarrow> digit_char a = digit_char b \<Longrightarrow> a = b"
  by (simp add: digit_char_def char_of_eq_iff take_bit_eq_mod)

lemma digit_char_not_underscore: "d < 10 \<Longrightarrow> digit_char d \<noteq> CHR ''_''"
proof
  assume d: "d < 10" and eq: "digit_char d = CHR ''_''"
  from eq have "(of_char (char_of (48 + d)) :: nat) = of_char (CHR ''_'')"
    by (simp only: digit_char_def)
  with d show False by (simp add: of_char_of)
qed

lemma str_nat_not_empty: "str_nat n \<noteq> []"
  by (subst str_nat.simps) simp

lemma str_nat_no_underscore: "CHR ''_'' \<notin> set (str_nat n)"
proof (induction n rule: str_nat.induct)
  case (1 n)
  show ?case
  proof (cases "n < 10")
    case True
    then show ?thesis
      using digit_char_not_underscore [of n] by (subst str_nat.simps) auto
  next
    case False
    have "n mod 10 < 10" by simp
    then have "digit_char (n mod 10) \<noteq> CHR ''_''" by (rule digit_char_not_underscore)
    with False 1 show ?thesis by (subst str_nat.simps) auto
  qed
qed

lemma str_nat_inj: "str_nat m = str_nat n \<Longrightarrow> m = n"
proof (induction m arbitrary: n rule: str_nat.induct)
  case (1 m)
  show ?case
  proof (cases "m < 10")
    case small_m: True
    show ?thesis
    proof (cases "n < 10")
      case True
      with small_m "1.prems" show ?thesis
        by (simp add: str_nat.simps [of m] str_nat.simps [of n] digit_char_inj)
    next
      case False
      with small_m "1.prems" show ?thesis
        using str_nat_not_empty [of "n div 10"]
        by (simp add: str_nat.simps [of m] str_nat.simps [of n])
    qed
  next
    case big_m: False
    show ?thesis
    proof (cases "n < 10")
      case True
      with big_m "1.prems" show ?thesis
        using str_nat_not_empty [of "m div 10"]
        by (simp add: str_nat.simps [of m] str_nat.simps [of n])
    next
      case False
      with big_m "1.prems" have eq: "str_nat (m div 10) = str_nat (n div 10)"
        and last: "digit_char (m mod 10) = digit_char (n mod 10)"
        by (simp_all add: str_nat.simps [of m] str_nat.simps [of n])
      from "1.IH" [OF big_m eq] have "m div 10 = n div 10" .
      moreover from last have "m mod 10 = n mod 10" by (simp add: digit_char_inj)
      ultimately show ?thesis by (metis div_mult_mod_eq)
    qed
  qed
qed

lemma split_at_last:
  assumes "xs @ a # ys = xs' @ a # ys'" and "a \<notin> set ys" and "a \<notin> set ys'"
  shows "xs = xs' \<and> ys = ys'"
proof -
  have "rev ys @ a # rev xs = rev ys' @ a # rev xs'"
    using arg_cong [OF assms(1), of rev] by simp
  then have "takeWhile (\<lambda>c. c \<noteq> a) (rev ys @ a # rev xs)
      = takeWhile (\<lambda>c. c \<noteq> a) (rev ys' @ a # rev xs')"
    by simp
  moreover have "takeWhile (\<lambda>c. c \<noteq> a) (rev zs @ a # ws) = rev zs" if "a \<notin> set zs" for zs ws
    using that by (auto simp: takeWhile_tail)
  ultimately have "rev ys = rev ys'" using assms(2,3) by simp
  with assms(1) show ?thesis by simp
qed

lemma new_id_inj: "new_id t m = new_id t' n \<Longrightarrow> t = t' \<and> m = n"
proof -
  assume "new_id t m = new_id t' n"
  then have "t @ CHR ''_'' # str_nat m = t' @ CHR ''_'' # str_nat n"
    by (simp add: new_id_def)
  then have "t = t' \<and> str_nat m = str_nat n"
    by (rule split_at_last) (rule str_nat_no_underscore)+
  then show ?thesis by (simp add: str_nat_inj)
qed


lemma numbers_of_append [simp]:
  "numbers_of t (xs @ ys) = numbers_of t xs @ numbers_of t ys"
  by (simp add: numbers_of_def)

lemma numbers_of_Nil [simp]: "numbers_of t [] = []"
  by (simp add: numbers_of_def)

lemma generated_refl: "generated st st []"
  by (simp add: generated_def)

lemma upt_join: "a \<le> b \<Longrightarrow> b \<le> c \<Longrightarrow> [a..<b] @ [b..<c] = [a..<(c::nat)]"
  using upt_add_eq_append [of a b "c - b"] by simp

lemma generated_trans:
  assumes "generated st st1 xs" and "generated st1 st2 ys"
  shows "generated st st2 (xs @ ys)"
proof -
  have "numbers_of t (xs @ ys)
      = [Suc (get_count (autogenerated_ids st) t)..<Suc (get_count (autogenerated_ids st2) t)]"
    for t
    using assms upt_join [of "Suc (get_count (autogenerated_ids st) t)"
        "Suc (get_count (autogenerated_ids st1) t)" "Suc (get_count (autogenerated_ids st2) t)"]
    by (simp add: generated_def)
  moreover have "get_count (autogenerated_ids st) t \<le> get_count (autogenerated_ids st2) t" for t
    using assms by (meson generated_def le_trans)
  ultimately show ?thesis
    using assms by (simp add: generated_def)
qed

lemma get_count_update:
  "get_count (AList.update k v al) t = (if t = k then v else get_count al t)"
  by (simp add: get_count_def update_conv')

lemma single_pin_component_generated:
  assumes "single_pin_component yd st item = (st', Inr entry)"
  shows "\<exists>insts. generated st st' insts \<and> map fst insts = (if is_template yd item then [item] else [])"
proof (cases "map_of (connectors yd) item")
  case None
  with assms show ?thesis by (simp add: single_pin_component_def)
next
  case (Some a)
  show ?thesis
  proof (cases "autogenerate a")
    case False
    with Some assms have "st' = st" by (simp add: single_pin_component_def)
    with Some False show ?thesis
      using generated_refl [of st] by (auto simp: is_template_def)
  next
    case True
    let ?n = "Suc (get_count (autogenerated_ids st) item)"
    from True Some assms
    have ids: "autogenerated_ids st' = AList.update item ?n (autogenerated_ids st)"
      and conns: "h_connectors (harness st') = h_connectors (harness st) @ [(new_id item ?n, a)]"
      by (auto simp: single_pin_component_def add_connector_def Let_def split: if_splits)
    have "generated st st' [(item, ?n)]"
      using ids conns
      by (auto simp: generated_def get_count_update instance_id_def numbers_of_def)
    with Some True show ?thesis by (auto simp: is_template_def)
  qed
qed


lemma scalar_sublist_generated:
  "scalar_sublist yd st item k = (st', Inr sublist)
    \<Longrightarrow> \<exists>insts. generated st st' insts
          \<and> map fst insts = (if is_template yd item then replicate k item else [])"
proof (induction k arbitrary: st sublist)
  case 0
  then show ?case using generated_refl [of st] by auto
next
  case (Suc k)
  obtain st1 r1 where one: "single_pin_component yd st item = (st1, r1)" by force
  with Suc.prems obtain entry where r1: "r1 = Inr entry" by (cases r1) auto
  obtain st2 r2 where more: "scalar_sublist yd st1 item k = (st2, r2)" by force
  with Suc.prems one r1 obtain rest where r2: "r2 = Inr rest" and st2: "st2 = st'"
    by (cases r2) auto
  from single_pin_component_generated [OF one [unfolded r1]] obtain xs where
    xs: "generated st st1 xs" "map fst xs = (if is_template yd item then [item] else [])"
    by blast
  from Suc.IH [OF more [unfolded r2 st2]] obtain ys where
    ys: "generated st1 st' ys" "map fst ys = (if is_template yd item then replicate k item else [])"
    by blast
  from xs ys have "generated st st' (xs @ ys)" by (simp add: generated_trans)
  moreover from xs ys
  have "map fst (xs @ ys) = (if is_template yd item then replicate (Suc k) item else [])"
    by simp
  ultimately show ?case by blast
qed

lemma list_sublist_generated:
  "list_sublist yd st subitems = (st', Inr sublist)
    \<Longrightarrow> \<exists>insts. generated st st' insts \<and> map fst insts = filter (is_template yd) subitems"
proof (induction subitems arbitrary: st sublist)
  case Nil
  then show ?case using generated_refl [of st] by auto
next
  case (Cons subitem subitems)
  obtain st1 r1 where one: "single_pin_component yd st subitem = (st1, r1)" by force
  with Cons.prems obtain entry where r1: "r1 = Inr entry" by (cases r1) auto
  obtain st2 r2 where more: "list_sublist yd st1 subitems = (st2, r2)" by force
  with Cons.prems one r1 obtain rest where r2: "r2 = Inr rest" and st2: "st2 = st'"
    by (cases r2) auto
  from single_pin_component_generated [OF one [unfolded r1]] obtain xs where
    xs: "generated st st1 xs" "map fst xs = (if is_template yd subitem then [subitem] else [])"
    by blast
  from Cons.IH [OF more [unfolded r2 st2]] obtain ys where
    ys: "generated st1 st' ys" "map fst ys = filter (is_template yd) subitems"
    by blast
  from xs ys have "generated st st' (xs @ ys)" by (simp add: generated_trans)
  moreover from xs ys
  have "map fst (xs @ ys) = filter (is_template yd) (subitem # subitems)"
    by simp
  ultimately show ?case by blast
qed

lemma item_sublist_generated:
  "item_sublist ex yd st n item = (st', Inr sublist)
    \<Longrightarrow> \<exists>insts. generated st st' insts \<and> map fst insts = item_templates yd n item"
proof (cases item)
  case (ItemStr s)
  assume "item_sublist ex yd st n item = (st', Inr sublist)"
  with ItemStr show ?thesis using scalar_sublist_generated [of yd st s n st' sublist] by simp
next
  case (ItemList subitems)
  assume "item_sublist ex yd st n item = (st', Inr sublist)"
  with ItemList show ?thesis using list_sublist_generated [of yd st subitems st' sublist] by simp
next
  case (ItemDict kvs)
  assume "item_sublist ex yd st n item = (st', Inr sublist)"
  with ItemDict show ?thesis using generated_refl [of st] by auto
qed

lemma populate_connection_list_generated:
  "populate_connection_list ex yd st n items = (st', Inr cl)
    \<Longrightarrow> \<exists>insts. generated st st' insts
          \<and> map fst insts = concat (map (item_templates yd n) items)"
proof (induction items arbitrary: st cl)
  case Nil
  then show ?case using generated_refl [of st] by auto
next
  case (Cons item items)
  obtain st1 r1 where one: "item_sublist ex yd st n item = (st1, r1)" by force
  with Cons.prems obtain sublist where r1: "r1 = Inr sublist" by (cases r1) auto
  obtain st2 r2 where more: "populate_connection_list ex yd st1 n items = (st2, r2)" by force
  with Cons.prems one r1 obtain rest where r2: "r2 = Inr rest" and st2: "st2 = st'"
    by (cases r2) auto
  from item_sublist_generated [OF one [unfolded r1]] obtain xs where
    xs: "generated st st1 xs" "map fst xs = item_templates yd n item"
    by blast
  from Cons.IH [OF more [unfolded r2 st2]] obtain ys where
    ys: "generated st1 st' ys" "map fst ys = concat (map (item_templates yd n) items)"
    by blast
  from xs ys have "generated st st' (xs @ ys)" by (simp add: generated_trans)
  moreover from xs ys
  have "map fst (xs @ ys) = concat (map (item_templates yd n) (item # items))"
    by simp
  ultimately show ?case by blast
qed

lemma connect_pins_connectors:
  "connect_pins h cl i item js = (h', r) \<Longrightarrow> h_connectors h' = h_connectors h"
  by (induction js arbitrary: h) (auto simp: connect_def split: sum.splits)

lemma connect_components_connectors:
  "connect_components h cl items = (h', r) \<Longrightarrow> h_connectors h' = h_connectors h"
proof (induction items arbitrary: h)
  case Nil
  then show ?case by simp
next
  case (Cons numbered items)
  obtain i item where numbered: "numbered = (i, item)" by (cases numbered)
  show ?case
  proof (cases item)
    case Nil
    with Cons.prems numbered show ?thesis by simp
  next
    case inner: (Cons entry more)
    obtain name p where entry: "entry = (name, p)" by (cases entry)
    show ?thesis
    proof (cases "in_cables h name")
      case False
      with Cons numbered inner entry show ?thesis by simp
    next
      case True
      obtain h1 r1 where pins: "connect_pins h cl i item (enumerate 0 item) = (h1, r1)" by force
      note same = connect_pins_connectors [OF pins]
      show ?thesis
      proof (cases r1)
        case (Some e)
        with Cons.prems numbered inner entry True pins same show ?thesis by simp
      next
        case None
        with Cons.prems numbered inner entry True pins
        have "connect_components h1 cl items = (h', r)" by simp
        from Cons.IH [OF this] same show ?thesis by simp
      qed
    qed
  qed
qed

lemma add_connection_generated:
  assumes "add_connection ex yd st connection = (st', None)"
  shows "\<exists>insts. generated st st' insts \<and> map fst insts = row_templates ex yd connection"
proof -
  from assms obtain n where check: "check_connection ex yd connection = Inr n"
    by (cases "check_connection ex yd connection") (auto simp: add_connection_def)
  obtain st1 r1 where pop: "populate_connection_list ex yd st n connection = (st1, r1)"
    by force
  with assms check obtain cl where r1: "r1 = Inr cl"
    by (cases r1) (auto simp: add_connection_def)
  obtain h r where con: "connect_components (harness st1) cl (enumerate 0 cl) = (h, r)"
    by force
  with assms check pop r1 have st': "st' = st1\<lparr>harness := h\<rparr>"
    by (auto simp: add_connection_def)
  from populate_connection_list_generated [OF pop [unfolded r1]] obtain insts where
    insts: "generated st st1 insts" "map fst insts = concat (map (item_templates yd n) connection)"
    by blast
  from insts(1) connect_components_connectors [OF con] st'
  have "generated st st' insts" by (simp add: generated_def)
  with insts(2) check show ?thesis by (auto simp: row_templates_def)
qed

lemma add_connections_generated:
  "add_connections ex yd st rows = (st', None)
    \<Longrightarrow> \<exists>insts. generated st st' insts \<and> map fst insts = concat (map (row_templates ex yd) rows)"
proof (induction rows arbitrary: st)
  case Nil
  then show ?case using generated_refl [of st] by auto
next
  case (Cons row rows)
  obtain st1 r1 where one: "add_connection ex yd st row = (st1, r1)" by force
  with Cons.prems have r1: "r1 = None" and more: "add_connections ex yd st1 rows = (st', None)"
    by (cases r1; simp)+
  from add_connection_generated [OF one [unfolded r1]] obtain xs where
    xs: "generated st st1 xs" "map fst xs = row_templates ex yd row"
    by blast
  from Cons.IH [OF more] obtain ys where
    ys: "generated st1 st' ys" "map fst ys = concat (map (row_templates ex yd) rows)"
    by blast
  from xs ys have "generated st st' (xs @ ys)" by (simp add: generated_trans)
  moreover from xs ys
  have "map fst (xs @ ys) = concat (map (row_templates ex yd) (row # rows))"
    by simp
  ultimately show ?case by blast
qed

lemma add_connectors_declared:
  "add_connectors h conns = Inr h'
    \<Longrightarrow> h_connectors h' = h_connectors h @ filter (\<lambda>(key, a). \<not> autogenerate a) conns"
  by (induction h conns rule: add_connectors.induct)
    (auto simp: add_connector_def split: if_splits sum.splits)

lemma add_cables_connectors:
  "add_cables h cbls = Inr h' \<Longrightarrow> h_connectors h' = h_connectors h"
  by (induction h cbls rule: add_cables.induct)
    (auto simp: add_cable_def split: if_splits sum.splits)

lemma add_items_declared:
  assumes "add_items d = Inr (h, yd)"
  shows "yd = with_sections d
    \<and> h_connectors h = filter (\<lambda>(key, a). \<not> autogenerate a) (connectors (with_sections d))"
proof -
  from assms obtain h1 where
    h1: "add_connectors empty_harness (connectors (with_sections d)) = Inr h1"
    and h: "add_cables h1 (cables (with_sections d)) = Inr h" and yd: "yd = with_sections d"
    by (auto simp: add_items_def Let_def split: sum.splits)
  from add_connectors_declared [OF h1] add_cables_connectors [OF h] yd
  show ?thesis by (simp add: empty_harness_def)
qed

lemma distinct_instances:
  "(\<And>t. distinct (numbers_of t insts)) \<Longrightarrow> distinct insts"
proof (induction insts)
  case Nil
  then show ?case by simp
next
  case (Cons inst insts)
  have rest: "distinct (numbers_of t insts)" for t
    using Cons.prems [of t] by (simp add: numbers_of_def split: if_splits)
  have "inst \<notin> set insts"
  proof
    assume "inst \<in> set insts"
    then have "snd inst \<in> set (numbers_of (fst inst) insts)"
      by (auto simp: numbers_of_def)
    with Cons.prems [of "fst inst"] show False by (simp add: numbers_of_def)
  qed
  with Cons.IH rest show ?case by simp
qed

lemma instance_id_inj: "inj instance_id"
  by (rule injI) (auto simp: instance_id_def prod_eq_iff dest: new_id_inj)


text \<open>
  C7. The counters of the templates are made once for the document and handed from row
  to row. After a parse without error the connectors of the harness are the declared
  ones that are not templates, followed by one generated instance for every scalar or
  list occurrence of a template in the rows, in their order; the id of an instance is
  \<^verbatim>\<open>_<template>_<n>\<close>, the numbers given to the instances of one template are 1, 2, 3
  and so on over the whole document, and the generated ids are distinct.
\<close>

theorem instances_numbered_per_template:
  "parse ex d = Inr h
    \<Longrightarrow> \<exists>insts.
          map fst (h_connectors h)
            = map fst (filter (\<lambda>(key, a). \<not> autogenerate a) (connectors (with_sections d)))
              @ map instance_id insts
        \<and> map fst insts = document_templates ex d
        \<and> (\<forall>t. numbers_of t insts = [1..<Suc (length (numbers_of t insts))])
        \<and> distinct (map instance_id insts)"
proof -
  assume parse: "parse ex d = Inr h"
  then obtain h0 yd where items: "add_items d = Inr (h0, yd)"
    by (auto simp: parse_def split: sum.splits)
  let ?st0 = "\<lparr>harness = h0, autogenerated_ids = []\<rparr>"
  from parse items obtain st where
    rows: "add_connections ex yd ?st0 (connections yd) = (st, None)" and h: "h = harness st"
    by (auto simp: parse_def split: prod.splits option.splits)
  from add_items_declared [OF items] have yd: "yd = with_sections d"
    and declared: "h_connectors h0
      = filter (\<lambda>(key, a). \<not> autogenerate a) (connectors (with_sections d))"
    by simp_all
  from add_connections_generated [OF rows] obtain insts where
    gen: "generated ?st0 st insts"
    and templates: "map fst insts = concat (map (row_templates ex yd) (connections yd))"
    by blast
  from gen have numbers: "numbers_of t insts = [1..<Suc (get_count (autogenerated_ids st) t)]" for t
    by (simp add: generated_def get_count_def)
  then have "numbers_of t insts = [1..<Suc (length (numbers_of t insts))]" for t
    by simp
  then have consecutive: "\<forall>t. numbers_of t insts = [1..<Suc (length (numbers_of t insts))]"
    by simp
  have "distinct (numbers_of t insts)" for t
    by (simp add: numbers)
  then have "distinct insts" by (rule distinct_instances)
  moreover have "inj_on instance_id (set insts)"
    using instance_id_inj by (rule inj_on_subset) simp
  ultimately have "distinct (map instance_id insts)"
    by (simp add: distinct_map)
  then have unique: "distinct (map instance_id insts)" .
  from gen declared h
  have "map fst (h_connectors h)
      = map fst (filter (\<lambda>(key, a). \<not> autogenerate a) (connectors (with_sections d)))
        @ map instance_id insts"
    by (simp add: generated_def)
  moreover from templates yd have "map fst insts = document_templates ex d"
    by (simp add: document_templates_def)
  ultimately show ?thesis using consecutive unique by blast
qed

lemma str_nat_digit: "n < 10 \<Longrightarrow> str_nat n = [digit_char n]"
  by (subst str_nat.simps) simp

lemma digit_char_values:
  "digit_char 0 = CHR ''0''" "digit_char (Suc 0) = CHR ''1''" "digit_char 2 = CHR ''2''"
  "digit_char 3 = CHR ''3''" "digit_char 4 = CHR ''4''" "digit_char 5 = CHR ''5''"
  "digit_char 6 = CHR ''6''" "digit_char 7 = CHR ''7''" "digit_char 8 = CHR ''8''"
  "digit_char 9 = CHR ''9''"
  by (simp_all add: digit_char_def char_of_def bit_simps)

lemma digit_char_nth: "n < 10 \<Longrightarrow> digit_char n = ''0123456789'' ! n"
proof -
  assume "n < 10"
  then have "n \<in> {0, Suc 0, 2, 3, 4, 5, 6, 7, 8, 9}" by auto
  then show ?thesis by (auto simp: digit_char_values)
qed

lemma str_nat_small: "n < 10 \<Longrightarrow> str_nat n = [''0123456789'' ! n]"
  by (simp add: str_nat_digit digit_char_nth)

lemma template_doc_parse: "parse sample_expand template_doc = Inr template_harness"
  by (simp add: parse_def template_harness_def template_doc_def add_items_def with_sections_def section_or_empty_def
      empty_harness_def add_connector_def add_cable_def add_connection_def check_connection_def
      first_section_def alternating_sections_def in_section_def single_pin_component_def
      in_cables_def link_at_def subscript_def subscript2_def connect_def sample_expand_def
      plain_def get_count_def new_id_def str_nat_small Let_def)

theorem instances_numbered_per_template_witness:
  "parse sample_expand template_doc = Inr template_harness
    \<and> (\<exists>insts.
          map fst (h_connectors template_harness)
            = map fst (filter (\<lambda>(key, a). \<not> autogenerate a)
                (connectors (with_sections template_doc)))
              @ map instance_id insts
        \<and> map fst insts = document_templates sample_expand template_doc
        \<and> (\<forall>t. numbers_of t insts = [1..<Suc (length (numbers_of t insts))])
        \<and> distinct (map instance_id insts))"
  using instances_numbered_per_template [OF template_doc_parse] template_doc_parse
  by (rule conjI [rotated])

end
